theory Spec2Isabelle
  imports Main
begin

section \<open>JavaScript values\<close>

text \<open>
  The handlers of the four views read loosely typed responses of the HTTP client: the
  TypeScript annotations are erased at run time, so a response is any JSON value.
  \<open>JUndefined\<close> is the value of a missing property. Numbers are modelled as
  integers: the code only tests them for zero and compares \<open>status\<close> with 201.
  An object is the association list of its properties (\<open>map_of\<close> reads it).
\<close>

datatype json =
    JUndefined
  | JNull
  | JBool bool
  | JNum int
  | JStr string
  | JArr "json list"
  | JObj "(string \<times> json) list"

text \<open>A settled promise: \<open>await\<close> throws on \<open>Rejected\<close>.\<close>

datatype 'a promise = Rejected | Resolved 'a

text \<open>ToBoolean: the falsy values are undefined, null, false, 0 and the empty string.\<close>

fun truthy :: "json \<Rightarrow> bool" where
  "truthy JUndefined = False"
| "truthy JNull = False"
| "truthy (JBool b) = b"
| "truthy (JNum n) = (n \<noteq> 0)"
| "truthy (JStr s) = (s \<noteq> [])"
| "truthy (JArr xs) = True"
| "truthy (JObj kvs) = True"

text \<open>\<open>a || b\<close>: the left operand when it is truthy, else the right one.\<close>

definition js_or :: "json \<Rightarrow> json \<Rightarrow> json" where
  "js_or a b = (if truthy a then a else b)"

text \<open>
  \<open>v.k\<close> for the property names the handlers read (\<open>ok\<close>, \<open>status\<close>, \<open>error\<close>,
  \<open>results\<close>, \<open>data\<close>, ...; none of them is a built-in property of an array or of a
  primitive). Reading a property of null or undefined throws a TypeError: \<open>None\<close>.
\<close>

fun prop_of :: "json \<Rightarrow> string \<Rightarrow> json option" where
  "prop_of JUndefined k = None"
| "prop_of JNull k = None"
| "prop_of (JObj kvs) k = (case map_of kvs k of None \<Rightarrow> Some JUndefined | Some v \<Rightarrow> Some v)"
| "prop_of v k = Some JUndefined"

text \<open>The same read once an earlier read of the same value has not thrown.\<close>

definition read_prop :: "json \<Rightarrow> string \<Rightarrow> json" where
  "read_prop v k = (case prop_of v k of None \<Rightarrow> JUndefined | Some x \<Rightarrow> x)"

text \<open>
  \<open>v?.[0]\<close>: undefined on null and undefined, the first element of an array, the
  first character of a string, the property \<open>"0"\<close> of an object.
\<close>

fun opt_index0 :: "json \<Rightarrow> json" where
  "opt_index0 (JArr []) = JUndefined"
| "opt_index0 (JArr (x # xs)) = x"
| "opt_index0 (JStr []) = JUndefined"
| "opt_index0 (JStr (c # cs)) = JStr [c]"
| "opt_index0 (JObj kvs) = (case map_of kvs ''0'' of None \<Rightarrow> JUndefined | Some v \<Rightarrow> v)"
| "opt_index0 v = JUndefined"

text \<open>\<open>Array.isArray\<close>.\<close>

fun isArray :: "json \<Rightarrow> bool" where
  "isArray (JArr xs) = True"
| "isArray v = False"

text \<open>Truthiness of a string-valued property that may be missing.\<close>

fun truthy_str :: "string option \<Rightarrow> bool" where
  "truthy_str None = False"
| "truthy_str (Some s) = (s \<noteq> [])"


section \<open>The application wizard (MultiStepForm.tsx)\<close>

text \<open>
  \<open>ApplicationData\<close> is an object with string properties (\<open>password\<close> optional); the
  form state is the map from property names to their values, so that the spread
  \<open>{ ...d, ...patch }\<close> of \<open>update\<close> is map override.
\<close>

type_synonym ApplicationData = "string \<rightharpoonup> string"

definition initialData :: ApplicationData where
  "initialData = [''first_name'' \<mapsto> '''', ''last_name'' \<mapsto> '''', ''username'' \<mapsto> '''',
     ''email'' \<mapsto> '''', ''phone_number'' \<mapsto> '''', ''password'' \<mapsto> '''', ''age'' \<mapsto> '''',
     ''country'' \<mapsto> '''', ''desiredJob'' \<mapsto> '''', ''desiredStartDate'' \<mapsto> '''']"

text \<open>
  The component state, with what \<open>onSubmit\<close> writes outside the component:
  \<open>localStorage\<close>, the token of the auth context, and the route with the navigation
  state handed to the payment page (draft id and submitted data). \<open>submitted\<close> is
  the \<open>data\<close> the running \<open>onSubmit\<close> holds in its closure since the click. The
  display name computed for \<open>setUser\<close> is not modelled.
\<close>

record wizard =
  data :: ApplicationData
  step :: int
  isLoading :: bool
  error :: json
  showPassword :: bool
  localStorage :: "string \<rightharpoonup> json"
  authToken :: json
  route :: string
  navState :: "(json \<times> ApplicationData) option"
  submitted :: ApplicationData

definition total :: int where
  "total = 2"

definition initial :: wizard where
  "initial = \<lparr>data = initialData, step = 1, isLoading = False, error = JNull,
     showPassword = False, localStorage = Map.empty, authToken = JNull,
     route = ''/apply'', navState = None, submitted = initialData\<rparr>"

definition update :: "ApplicationData \<Rightarrow> wizard \<Rightarrow> wizard" where
  "update patch st = st\<lparr>data := data st ++ patch\<rparr>"

text \<open>\<open>next\<close> and \<open>back\<close> of the source.\<close>

definition wizard_next :: "wizard \<Rightarrow> wizard" where
  "wizard_next st = st\<lparr>step := min total (step st + 1)\<rparr>"

definition wizard_back :: "wizard \<Rightarrow> wizard" where
  "wizard_back st = st\<lparr>step := max 1 (step st - 1)\<rparr>"

definition validStep :: "wizard \<Rightarrow> bool" where
  "validStep st =
     (if step st = 1 then
        truthy_str (data st ''first_name'') \<and>
        truthy_str (data st ''last_name'') \<and>
        truthy_str (data st ''username'') \<and>
        truthy_str (data st ''email'') \<and>
        truthy_str (data st ''password'') \<and>
        (case data st ''password'' of None \<Rightarrow> False | Some p \<Rightarrow> 8 \<le> length p) \<and>
        truthy_str (data st ''phone_number'') \<and>
        truthy_str (data st ''age'')
      else if step st = 2 then
        truthy_str (data st ''country'') \<and>
        truthy_str (data st ''desiredJob'') \<and>
        truthy_str (data st ''desiredStartDate'')
      else False)"

text \<open>The \<open>disabled\<close> attributes of the three buttons and the conditions they render under.\<close>

definition back_disabled :: "wizard \<Rightarrow> bool" where
  "back_disabled st = (step st = 1 \<or> isLoading st)"

definition next_rendered :: "wizard \<Rightarrow> bool" where
  "next_rendered st = (step st < total)"

definition next_disabled :: "wizard \<Rightarrow> bool" where
  "next_disabled st = (\<not> validStep st \<or> isLoading st)"

definition submit_rendered :: "wizard \<Rightarrow> bool" where
  "submit_rendered st = (step st = total)"

definition submit_disabled :: "wizard \<Rightarrow> bool" where
  "submit_disabled st = (\<not> validStep st \<or> isLoading st)"

text \<open>
  \<open>onSubmit\<close> up to its \<open>await\<close>, and from the settled promise on. A rejected promise
  and a TypeError on reading \<open>res.ok\<close> both end in the \<open>catch\<close> branch.
\<close>

definition onSubmit_begin :: "wizard \<Rightarrow> wizard" where
  "onSubmit_begin st = st\<lparr>isLoading := True, wizard.error := JNull, submitted := data st\<rparr>"

definition generic_failure :: string where
  "generic_failure = ''Failed to submit application. Please check your details and try again.''"

definition unexpected_failure :: string where
  "unexpected_failure = ''An unexpected error occurred. Please try again later.''"

definition errorMessage :: "json \<Rightarrow> json" where
  "errorMessage res =
     js_or (js_or (js_or (read_prop res ''error'')
                         (opt_index0 (read_prop res ''username'')))
                  (opt_index0 (read_prop res ''email'')))
           (JStr generic_failure)"

definition store_tokens :: "json \<Rightarrow> wizard \<Rightarrow> wizard" where
  "store_tokens res st =
     (let token = js_or (read_prop res ''token'') (read_prop res ''access'') in
      if truthy token then
        st\<lparr>localStorage :=
             (if truthy (read_prop res ''refresh'')
              then (localStorage st)(''auth_access_token'' \<mapsto> token,
                     ''auth_refresh_token'' \<mapsto> read_prop res ''refresh'')
              else (localStorage st)(''auth_access_token'' \<mapsto> token)),
           authToken := token\<rparr>
      else st)"

definition onSubmit_settle :: "json promise \<Rightarrow> wizard \<Rightarrow> wizard" where
  "onSubmit_settle p st =
     (case p of
        Rejected \<Rightarrow> st\<lparr>wizard.error := JStr unexpected_failure, isLoading := False\<rparr>
      | Resolved res \<Rightarrow>
          (case prop_of res ''ok'' of
             None \<Rightarrow> st\<lparr>wizard.error := JStr unexpected_failure, isLoading := False\<rparr>
           | Some ok \<Rightarrow>
               if truthy ok \<or> read_prop res ''status'' = JNum 201 then
                 (store_tokens res st)
                   \<lparr>route := ''/payment'',
                    navState := Some (js_or (read_prop res ''draft_id'') (JStr ''temp''), submitted st),
                    isLoading := False\<rparr>
               else st\<lparr>wizard.error := errorMessage res, isLoading := False\<rparr>))"

text \<open>
  What a user and the network can do to the mounted wizard. A click on a button that
  is not rendered or is disabled does nothing. Field edits are allowed in every state,
  which covers every input the two steps render.
\<close>

datatype event =
    Edit "(string \<times> string) list"
  | ClickNext
  | ClickBack
  | ClickSubmit
  | Settle "json promise"
  | TogglePassword

fun fire :: "wizard \<Rightarrow> event \<Rightarrow> wizard" where
  "fire st (Edit patch) = update (map_of patch) st"
| "fire st ClickNext =
     (if next_rendered st \<and> \<not> next_disabled st then wizard_next st else st)"
| "fire st ClickBack = (if \<not> back_disabled st then wizard_back st else st)"
| "fire st ClickSubmit =
     (if submit_rendered st \<and> \<not> submit_disabled st then onSubmit_begin st else st)"
| "fire st (Settle p) = onSubmit_settle p st"
| "fire st TogglePassword = st\<lparr>showPassword := \<not> showPassword st\<rparr>"

fun run :: "wizard \<Rightarrow> event list \<Rightarrow> wizard" where
  "run st [] = st"
| "run st (e # es) = run (fire st e) es"

text \<open>Direct calls of \<open>next\<close> and \<open>back\<close>, in any order.\<close>

datatype move = Next | Back

fun shift :: "wizard \<Rightarrow> move \<Rightarrow> wizard" where
  "shift st Next = wizard_next st"
| "shift st Back = wizard_back st"

fun shifts :: "wizard \<Rightarrow> move list \<Rightarrow> wizard" where
  "shifts st [] = st"
| "shifts st (m # ms) = shifts (shift st m) ms"

text \<open>
  The completeness of step 1 in the words of the specification: the six required
  fields are non-empty and the password has at least 8 characters.
\<close>

definition step1_complete :: "ApplicationData \<Rightarrow> bool" where
  "step1_complete d =
     ((\<forall>k \<in> set [''first_name'', ''last_name'', ''username'', ''email'',
                  ''phone_number'', ''age''].
         case d k of None \<Rightarrow> False | Some s \<Rightarrow> s \<noteq> []) \<and>
      (case d ''password'' of None \<Rightarrow> False | Some p \<Rightarrow> 8 \<le> length p))"


text \<open>Sample inputs: the edits that complete step 1 and step 2, and a rejected registration.\<close>

definition filled :: "(string \<times> string) list" where
  "filled = [(''first_name'', ''Abebe''), (''last_name'', ''Bikila''), (''username'', ''abebe''),
     (''email'', ''a@b.et''), (''phone_number'', ''0911''), (''age'', ''30''),
     (''password'', ''12345678'')]"

definition filled2 :: "(string \<times> string) list" where
  "filled2 = [(''country'', ''Poland''), (''desiredJob'', ''Cleaner''),
     (''desiredStartDate'', ''2026-01'')]"



section \<open>The sites directory (SitesPage.tsx)\<close>

text \<open>
  A string is the list of its UTF-16 code units. The fields are as the interface
  \<open>JobSite\<close> declares them.
\<close>

type_synonym utf16 = "nat list"

record JobSite =
  site_id :: int
  country :: utf16
  site_name :: utf16
  site_url :: utf16

text \<open>\<open>s.includes(q)\<close>: \<open>q\<close> occurs in \<open>s\<close> at some position.\<close>

fun starts_with :: "utf16 \<Rightarrow> utf16 \<Rightarrow> bool" where
  "starts_with s [] = True"
| "starts_with [] (d # q) = False"
| "starts_with (c # s) (d # q) = (c = d \<and> starts_with s q)"

fun str_includes :: "utf16 \<Rightarrow> utf16 \<Rightarrow> bool" where
  "str_includes [] q = (q = [])"
| "str_includes (c # s) q = (starts_with (c # s) q \<or> str_includes s q)"

text \<open>
  \<open>String.prototype.toLowerCase\<close> belongs to the runtime, with the case tables of
  Unicode behind it: it is neither a map over the code units (a capital sigma at the
  end of a word becomes the final sigma, U+0130 becomes two units) nor limited to any
  alphabet. The filter takes it as its first parameter and is proved for every value
  of it.
\<close>

definition filteredSites :: "(utf16 \<Rightarrow> utf16) \<Rightarrow> JobSite list \<Rightarrow> utf16 \<Rightarrow> JobSite list" where
  "filteredSites toLowerCase sites searchQuery =
     filter (\<lambda>site.
        if searchQuery = [] then True
        else (let query = toLowerCase searchQuery in
              str_includes (toLowerCase (site_name site)) query \<or>
              str_includes (toLowerCase (JobSite.country site)) query \<or>
              str_includes (toLowerCase (site_url site)) query)) sites"

text \<open>
  Containment up to a mapping \<open>f\<close> of the code units, position by position: at some
  position of \<open>s\<close> the units of \<open>q\<close> follow, each with the same image under \<open>f\<close> as
  its counterpart. With a case folding for \<open>f\<close> this is containment ignoring case,
  with the identity it is containment.
\<close>

definition occurs_ci_at :: "(nat \<Rightarrow> nat) \<Rightarrow> utf16 \<Rightarrow> utf16 \<Rightarrow> nat \<Rightarrow> bool" where
  "occurs_ci_at f s q i =
     (i + length q \<le> length s \<and> (\<forall>j \<in> {..<length q}. f (s ! (i + j)) = f (q ! j)))"

definition contains_ci :: "(nat \<Rightarrow> nat) \<Rightarrow> utf16 \<Rightarrow> utf16 \<Rightarrow> bool" where
  "contains_ci f s q = (\<exists>i \<in> {..length s}. occurs_ci_at f s q i)"

definition contains :: "utf16 \<Rightarrow> utf16 \<Rightarrow> bool" where
  "contains s q = contains_ci (\<lambda>u. u) s q"

text \<open>
  The two readings of a match: some lower-cased field contains the lower-cased query,
  and some field contains the query up to \<open>f\<close>.
\<close>

definition matches_lowered :: "(utf16 \<Rightarrow> utf16) \<Rightarrow> utf16 \<Rightarrow> JobSite \<Rightarrow> bool" where
  "matches_lowered lc q site =
     (contains (lc (site_name site)) (lc q) \<or> contains (lc (JobSite.country site)) (lc q) \<or>
      contains (lc (site_url site)) (lc q))"

definition matches_ci :: "(nat \<Rightarrow> nat) \<Rightarrow> utf16 \<Rightarrow> JobSite \<Rightarrow> bool" where
  "matches_ci f q site =
     (contains_ci f (site_name site) q \<or> contains_ci f (JobSite.country site) q \<or>
      contains_ci f (site_url site) q)"

text \<open>
  The lower-casing acts on the query and on the fields of the loaded sites as the
  map of \<open>f\<close> over their units.
\<close>

definition unitwise_on :: "(utf16 \<Rightarrow> utf16) \<Rightarrow> (nat \<Rightarrow> nat) \<Rightarrow> JobSite list \<Rightarrow> utf16 \<Rightarrow> bool" where
  "unitwise_on lc f loaded q =
     (lc q = map f q \<and>
      (\<forall>site \<in> set loaded.
         lc (site_name site) = map f (site_name site) \<and>
         lc (JobSite.country site) = map f (JobSite.country site) \<and>
         lc (site_url site) = map f (site_url site)))"

text \<open>
  The folding of the ASCII letters, which is what \<open>toLowerCase\<close> does to a string
  of ASCII characters.
\<close>

definition ascii_fold :: "nat \<Rightarrow> nat" where
  "ascii_fold u = (if 65 \<le> u \<and> u \<le> 90 then u + 32 else u)"

text \<open>
  The state the handlers below write: the selection, the loaded sites, and the query
  string of the URL as \<open>useSearchParams\<close> presents it (\<open>searchParams.get(k)\<close> is the
  map at \<open>k\<close>). \<open>setSearchParams\<close> with an object replaces the whole query string.
\<close>

record sites_page =
  selectedCountry :: string
  sites :: "json list"
  loading :: bool
  searchQuery :: string
  searchParams :: "string \<rightharpoonup> string"

definition handleCountryChange :: "string \<Rightarrow> sites_page \<Rightarrow> sites_page" where
  "handleCountryChange c st =
     (if c \<noteq> [] \<and> c \<noteq> ''all''
      then st\<lparr>selectedCountry := c, searchParams := [''country'' \<mapsto> c]\<rparr>
      else st\<lparr>selectedCountry := c, searchParams := Map.empty\<rparr>)"

text \<open>
  The click on a popular country: \<open>navigate\<close> to \<open>/sites?country=\<close> followed by the
  encoded name, which the router decodes again when it presents the query string.
\<close>

definition popularCountry_click :: "string \<Rightarrow> sites_page \<Rightarrow> sites_page" where
  "popularCountry_click c st = st\<lparr>selectedCountry := c, searchParams := [''country'' \<mapsto> c]\<rparr>"

text \<open>
  The block "Handle different response formats" of \<open>loadSitesForCountry\<close> and
  \<open>loadAllSites\<close> (the same text in both): \<open>None\<close> when reading \<open>res.results\<close> throws.
\<close>

fun elements :: "json \<Rightarrow> json list" where
  "elements (JArr xs) = xs"
| "elements v = []"

definition jobSites_of :: "json \<Rightarrow> json list option" where
  "jobSites_of res =
     (case prop_of res ''results'' of
        None \<Rightarrow> None
      | Some results \<Rightarrow>
          if truthy results \<and> isArray results then Some (elements results)
          else if truthy (read_prop res ''data'') \<and> isArray (read_prop res ''data'')
            then Some (elements (read_prop res ''data''))
          else if isArray res then Some (elements res)
          else if truthy (read_prop res ''ok'') \<or> read_prop res ''status'' = JNum 200
            then Some []
          else Some [])"

definition loadSitesForCountry :: "json promise \<Rightarrow> sites_page \<Rightarrow> sites_page" where
  "loadSitesForCountry p st =
     (case p of
        Rejected \<Rightarrow> st\<lparr>sites := [], sites_page.loading := False\<rparr>
      | Resolved res \<Rightarrow>
          (case jobSites_of res of
             None \<Rightarrow> st\<lparr>sites := [], sites_page.loading := False\<rparr>
           | Some jobSites \<Rightarrow> st\<lparr>sites := jobSites, sites_page.loading := False\<rparr>))"

text \<open>
  \<open>loadAllSites\<close> parses with the same block, then reads \<open>site.country\<close> of every
  parsed site to extend the country list (not modelled): on a null or undefined
  element that read throws, and the \<open>catch\<close> branch empties the sites again.
\<close>

definition loadAllSites :: "json promise \<Rightarrow> sites_page \<Rightarrow> sites_page" where
  "loadAllSites p st =
     (case p of
        Rejected \<Rightarrow> st\<lparr>sites := [], sites_page.loading := False\<rparr>
      | Resolved res \<Rightarrow>
          (case jobSites_of res of
             None \<Rightarrow> st\<lparr>sites := [], sites_page.loading := False\<rparr>
           | Some jobSites \<Rightarrow>
               if list_ex (\<lambda>site. prop_of site ''country'' = None) jobSites
               then st\<lparr>sites := [], sites_page.loading := False\<rparr>
               else st\<lparr>sites := jobSites, sites_page.loading := False\<rparr>))"

text \<open>The parser in the words of the specification.\<close>

definition tolerant_parse :: "json \<Rightarrow> json list" where
  "tolerant_parse res =
     (if isArray (read_prop res ''results'') then elements (read_prop res ''results'')
      else if isArray (read_prop res ''data'') then elements (read_prop res ''data'')
      else if isArray res then elements res
      else [])"

text \<open>
  Sample inputs: two loaded sites and a page opened on Germany; a site named with the
  Greek capitals alpha, sigma, tau, epsilon, rho, iota (U+0391, U+03A3, U+03A4, U+0395,
  U+03A1, U+0399), the query of the first two of them, and the values of
  \<open>toLowerCase\<close> at the strings this site and this query hand to it: the sigma
  inside the name becomes U+03C3, the sigma that ends the query becomes the final
  sigma U+03C2.
\<close>

definition de :: JobSite where
  "de = \<lparr>site_id = 1, country = map of_char ''Germany'', site_name = map of_char ''StepStone'',
     site_url = map of_char ''https://stepstone.de''\<rparr>"

definition pl :: JobSite where
  "pl = \<lparr>site_id = 2, country = map of_char ''Poland'', site_name = map of_char ''Pracuj'',
     site_url = map of_char ''https://pracuj.pl''\<rparr>"

definition asteri :: JobSite where
  "asteri = \<lparr>site_id = 3, country = map of_char ''Greece'',
     site_name = [913, 931, 932, 917, 929, 921],
     site_url = map of_char ''https://asteri.gr''\<rparr>"

definition alpha_sigma :: utf16 where
  "alpha_sigma = [913, 931]"

definition lowered_here :: "utf16 \<Rightarrow> utf16" where
  "lowered_here s =
     (case map_of
        [([913, 931, 932, 917, 929, 921], [945, 963, 964, 949, 961, 953]),
         ([913, 931], [945, 962]),
         (map of_char ''Greece'', map of_char ''greece''),
         (map of_char ''https://asteri.gr'', map of_char ''https://asteri.gr'')] s of
        None \<Rightarrow> s
      | Some r \<Rightarrow> r)"

definition browsing :: sites_page where
  "browsing = \<lparr>selectedCountry = ''Germany'', sites = [], loading = False, searchQuery = [],
     searchParams = [''country'' \<mapsto> ''Germany'']\<rparr>"


section \<open>The dashboard (Dashboard component)\<close>

text \<open>
  A location is a path with its decoded query parameters: \<open>handleViewCountry\<close>
  navigates to \<open>/sites?country=\<close> followed by the encoded country name.
\<close>

datatype location = Location string "(string \<times> string) list"

record dashboard =
  country :: string
  sites :: json
  allSites :: json
  showAllCountries :: bool
  loading :: bool
  location :: location

definition handleViewCountry :: "string \<Rightarrow> dashboard \<Rightarrow> dashboard" where
  "handleViewCountry countryName st =
     st\<lparr>location := Location ''/sites'' [(''country'', countryName)]\<rparr>"

definition viewAll_jobSites :: "json \<Rightarrow> json" where
  "viewAll_jobSites res =
     js_or (js_or (read_prop res ''results'') (read_prop res ''data''))
           (if isArray res then res else JArr [])"

text \<open>
  \<open>handleViewAllCountries\<close>, from the click to the end of the handler. The promise is
  that of the one request the handler makes: \<open>fetchUserDashboard\<close> when it resets a
  user without a country, \<open>fetchJobSites\<close> when it switches to all countries.
\<close>

definition handleViewAllCountries :: "json promise \<Rightarrow> dashboard \<Rightarrow> dashboard" where
  "handleViewAllCountries p st =
     (if showAllCountries st then
        (if dashboard.country st \<noteq> [] then
           handleViewCountry (dashboard.country st) (st\<lparr>showAllCountries := False\<rparr>)
         else
           (case p of
              Rejected \<Rightarrow> st\<lparr>showAllCountries := False, dashboard.loading := False\<rparr>
            | Resolved dashboardRes \<Rightarrow>
                (case prop_of dashboardRes ''ok'' of
                   None \<Rightarrow> st\<lparr>showAllCountries := False, dashboard.loading := False\<rparr>
                 | Some ok \<Rightarrow>
                     if truthy ok then
                       st\<lparr>showAllCountries := False,
                          dashboard.sites := js_or (read_prop dashboardRes ''job_sites'') (JArr []),
                          dashboard.loading := False\<rparr>
                     else st\<lparr>showAllCountries := False, dashboard.loading := False\<rparr>)))
      else
        (case p of
           Rejected \<Rightarrow> st\<lparr>dashboard.loading := False\<rparr>
         | Resolved res \<Rightarrow>
             (case prop_of res ''ok'' of
                None \<Rightarrow> st\<lparr>dashboard.loading := False\<rparr>
              | Some ok \<Rightarrow>
                  if truthy ok then
                    st\<lparr>allSites := viewAll_jobSites res, showAllCountries := True,
                       dashboard.loading := False\<rparr>
                  else st\<lparr>showAllCountries := True, dashboard.loading := False\<rparr>)))"

definition displaySites :: "dashboard \<Rightarrow> json" where
  "displaySites st = (if showAllCountries st then allSites st else dashboard.sites st)"

text \<open>Sample inputs: a site, a mounted dashboard of a user bound for Germany, responses.\<close>

definition site1 :: json where
  "site1 = JObj [(''id'', JNum 1), (''country'', JStr ''Germany''),
     (''site_name'', JStr ''Jobs DE''), (''site_url'', JStr ''https://jobs.example/de'')]"

definition mounted :: dashboard where
  "mounted = \<lparr>country = ''Germany'', sites = JArr [site1], allSites = JArr [],
     showAllCountries = False, loading = False, location = Location ''/dashboard'' []\<rparr>"

definition all_ok :: json where
  "all_ok = JObj [(''ok'', JBool True), (''results'', JArr [site1, site1])]"


definition unbound :: dashboard where
  "unbound = \<lparr>country = [], sites = JArr [site1], allSites = JArr [],
     showAllCountries = False, loading = False, location = Location ''/dashboard'' []\<rparr>"

definition dashboard_ok :: json where
  "dashboard_ok = JObj [(''ok'', JBool True), (''country'', JStr []),
     (''job_sites'', JArr [site1])]"

definition mislabelled :: json where
  "mislabelled = JObj [(''ok'', JBool True), (''results'', JStr ''none''),
     (''data'', JArr [site1])]"


section \<open>The contact form (ContactPage.tsx)\<close>

text \<open>
  A \<open>Response\<close> of the Fetch API: \<open>ok\<close> holds for the statuses 200 to 299, and
  \<open>json()\<close> rejects when the body is not JSON (\<open>None\<close>).
\<close>

record response =
  status :: nat
  body :: "json option"

definition ok :: "response \<Rightarrow> bool" where
  "ok r = (200 \<le> status r \<and> status r \<le> 299)"

text \<open>The callback handed to \<open>setTimeout\<close>, kept with its delay in milliseconds.\<close>

datatype callback = SetSuccessFalse

record contact =
  formData :: "string \<rightharpoonup> string"
  loading :: bool
  success :: bool
  error :: json
  timers :: "(nat \<times> callback) list"

definition emptyForm :: "string \<rightharpoonup> string" where
  "emptyForm = [''name'' \<mapsto> '''', ''email'' \<mapsto> '''', ''subject'' \<mapsto> '''', ''message'' \<mapsto> '''']"

definition network_error :: string where
  "network_error = ''Network error. Please check your connection and try again.''"

definition send_failure :: string where
  "send_failure = ''Failed to send message. Please try again.''"

definition handleChange :: "string \<Rightarrow> string \<Rightarrow> contact \<Rightarrow> contact" where
  "handleChange name v st = st\<lparr>formData := (formData st)(name \<mapsto> v)\<rparr>"

text \<open>
  \<open>handleSubmit\<close> up to its \<open>await\<close>, and from the settled promise on: the fields
  stay editable while the request is in flight, and every setter acts on the state of
  its moment. \<open>handleSubmit\<close> is a submission with nothing in between.
\<close>

definition handleSubmit_begin :: "contact \<Rightarrow> contact" where
  "handleSubmit_begin st =
     st\<lparr>contact.loading := True, contact.error := JNull, success := False\<rparr>"

definition handleSubmit_settle :: "response promise \<Rightarrow> contact \<Rightarrow> contact" where
  "handleSubmit_settle p st =
     (let caught = st\<lparr>contact.error := JStr network_error, contact.loading := False\<rparr>
      in case p of
           Rejected \<Rightarrow> caught
         | Resolved r \<Rightarrow>
             if ok r then
               st\<lparr>success := True, formData := emptyForm,
                  timers := timers st @ [(5000, SetSuccessFalse)],
                  contact.loading := False\<rparr>
             else
               (case body r of
                  None \<Rightarrow> caught
                | Some d \<Rightarrow>
                    (case prop_of d ''message'' of
                       None \<Rightarrow> caught
                     | Some m \<Rightarrow>
                         st\<lparr>contact.error := js_or m (JStr send_failure),
                            contact.loading := False\<rparr>)))"

definition handleSubmit :: "response promise \<Rightarrow> contact \<Rightarrow> contact" where
  "handleSubmit p st = handleSubmit_settle p (handleSubmit_begin st)"

fun call :: "callback \<Rightarrow> contact \<Rightarrow> contact" where
  "call SetSuccessFalse st = st\<lparr>success := False\<rparr>"

text \<open>Sample inputs: a filled form and two responses.\<close>

definition typed :: contact where
  "typed = \<lparr>formData = [''name'' \<mapsto> ''Sara'', ''email'' \<mapsto> ''s@x.et'', ''subject'' \<mapsto> '''',
       ''message'' \<mapsto> ''Hello''],
     loading = False, success = True, error = JNull, timers = []\<rparr>"

definition created :: response where
  "created = \<lparr>status = 201, body = Some (JObj [(''id'', JNum 7)])\<rparr>"

definition bad_request :: response where
  "bad_request = \<lparr>status = 400, body = Some (JObj [(''message'', JStr ''Invalid email'')])\<rparr>"


section \<open>Properties of the wizard\<close>

lemmas wizard_defs = initial_def initialData_def update_def next_rendered_def
  next_disabled_def validStep_def wizard_next_def wizard_back_def total_def back_disabled_def
  submit_rendered_def submit_disabled_def onSubmit_begin_def

lemma run_append: "run st (xs @ ys) = run (run st xs) ys"
  by (induction xs arbitrary: st) simp_all

lemma run_snoc: "run st (xs @ [e]) = fire (run st xs) e"
  by (simp add: run_append)

lemma step_onSubmit_settle: "step (onSubmit_settle p st) = step st"
  by (simp add: onSubmit_settle_def store_tokens_def Let_def split: promise.splits option.splits)

lemma step_fire_range:
  "1 \<le> step st \<and> step st \<le> 2 \<Longrightarrow> 1 \<le> step (fire st e) \<and> step (fire st e) \<le> 2"
  by (cases e) (auto simp: update_def wizard_next_def wizard_back_def total_def onSubmit_begin_def
      step_onSubmit_settle)

lemma step_run_range:
  "1 \<le> step st \<and> step st \<le> 2 \<Longrightarrow> 1 \<le> step (run st evs) \<and> step (run st evs) \<le> 2"
proof (induction evs arbitrary: st)
  case Nil
  then show ?case by simp
next
  case (Cons e es)
  from Cons.prems have "1 \<le> step (fire st e) \<and> step (fire st e) \<le> 2"
    by (rule step_fire_range)
  then show ?case using Cons.IH by simp
qed

lemma validStep_step1: "step st = 1 \<Longrightarrow> validStep st = step1_complete (data st)"
  by (auto simp: validStep_def step1_complete_def split: option.splits)

text \<open>Only an enabled click on the next button takes the wizard from step 1 to step 2.\<close>

lemma enter_step2:
  assumes "step st = 1" and "step (fire st e) = 2"
  shows "e = ClickNext \<and> step1_complete (data st) \<and> \<not> isLoading st"
proof (cases e)
  case ClickNext
  with assms have "next_rendered st \<and> \<not> next_disabled st"
    by (auto split: if_splits)
  then show ?thesis using ClickNext assms(1)
    by (simp add: next_disabled_def validStep_step1)
qed (use assms in \<open>auto simp: update_def wizard_back_def back_disabled_def onSubmit_begin_def
      step_onSubmit_settle split: if_splits\<close>)

text \<open>
  A history that ends at step 2 splits at its last forward transition: step 1 was
  complete there, and the wizard has stayed at step 2 since.
\<close>

lemma step2_history:
  "step (run initial evs) = 2 \<Longrightarrow>
     \<exists>pre post. evs = pre @ ClickNext # post \<and>
        step (run initial pre) = 1 \<and>
        step1_complete (data (run initial pre)) \<and>
        \<not> isLoading (run initial pre) \<and>
        (\<forall>n \<le> length post. step (run initial (pre @ ClickNext # take n post)) = 2)"
proof (induction evs rule: rev_induct)
  case Nil
  then show ?case by (simp add: initial_def)
next
  case (snoc e es)
  let ?st = "run initial es"
  have after: "step (fire ?st e) = 2" using snoc.prems by (simp add: run_snoc)
  have range: "1 \<le> step ?st \<and> step ?st \<le> 2"
    by (rule step_run_range) (simp add: initial_def)
  show ?case
  proof (cases "step ?st = 2")
    case True
    from snoc.IH [OF True] obtain pre post where
      es: "es = pre @ ClickNext # post" and
      p1: "step (run initial pre) = 1" and
      p2: "step1_complete (data (run initial pre))" and
      p3: "\<not> isLoading (run initial pre)" and
      p4: "\<forall>n \<le> length post. step (run initial (pre @ ClickNext # take n post)) = 2"
      by blast
    have "\<forall>n \<le> length (post @ [e]).
            step (run initial (pre @ ClickNext # take n (post @ [e]))) = 2"
    proof (intro allI impI)
      fix n assume n: "n \<le> length (post @ [e])"
      show "step (run initial (pre @ ClickNext # take n (post @ [e]))) = 2"
      proof (cases "n \<le> length post")
        case True
        then show ?thesis using p4 by simp
      next
        case False
        with n have "take n (post @ [e]) = post @ [e]" by simp
        then have "pre @ ClickNext # take n (post @ [e]) = es @ [e]" using es by simp
        then show ?thesis using snoc.prems by simp
      qed
    qed
    moreover have "es @ [e] = pre @ ClickNext # (post @ [e])" using es by simp
    ultimately show ?thesis using p1 p2 p3 by blast
  next
    case False
    with range have one: "step ?st = 1" by arith
    from enter_step2 [OF one after] have e: "e = ClickNext"
      and c: "step1_complete (data ?st)" and l: "\<not> isLoading ?st" by simp_all
    have "\<forall>n \<le> length ([]::event list). step (run initial (es @ ClickNext # take n [])) = 2"
      using snoc.prems e by simp
    moreover have "es @ [e] = es @ ClickNext # []" using e by simp
    ultimately show ?thesis using one c l by blast
  qed
qed

text \<open>
  C1. Whatever the user and the network do to the wizard from its initial state, if it
  is at step 2 then the history contains a click on the next button, made at step 1
  while first_name, last_name, username, email, phone_number and age were non-empty and
  the password had at least 8 characters, after which the wizard stayed at step 2. At
  step 1 with an incomplete form the next button is disabled.
\<close>

theorem wizard_step2_gate:
  "(step (run initial evs) = 2 \<longrightarrow>
     (\<exists>pre post. evs = pre @ ClickNext # post \<and>
        step (run initial pre) = 1 \<and>
        step1_complete (data (run initial pre)) \<and>
        \<not> isLoading (run initial pre) \<and>
        (\<forall>n \<le> length post. step (run initial (pre @ ClickNext # take n post)) = 2))) \<and>
   (step st = 1 \<and> \<not> step1_complete (data st) \<longrightarrow> next_disabled st)"
  using step2_history [of evs] by (auto simp: next_disabled_def validStep_step1)

theorem wizard_step2_gate_witness:
  "step (run initial [Edit filled, ClickNext]) = 2 \<and>
   (\<exists>pre post. [Edit filled, ClickNext] = pre @ ClickNext # post \<and>
        step (run initial pre) = 1 \<and>
        step1_complete (data (run initial pre))) \<and>
   step initial = 1 \<and> \<not> step1_complete (data initial) \<and> next_disabled initial"
proof -
  have a: "step (run initial [Edit filled, ClickNext]) = 2"
    by (simp add: filled_def wizard_defs)
  have b: "step initial = 1 \<and> \<not> step1_complete (data initial)"
    by (simp add: initial_def initialData_def step1_complete_def)
  from wizard_step2_gate [of "[Edit filled, ClickNext]" initial] a b
  show ?thesis by blast
qed

text \<open>
  C7, as the claim states it, fails: while a submission is in flight at step 2 the
  back button is disabled.
\<close>

theorem back_disabled_while_loading_counterexample:
  "1 < step (run initial [Edit filled, ClickNext, Edit filled2, ClickSubmit]) \<and>
   back_disabled (run initial [Edit filled, ClickNext, Edit filled2, ClickSubmit])"
  by (simp add: filled_def filled2_def wizard_defs)

text \<open>
  C7, amended. In every wizard state with step greater than 1 the back button is
  disabled exactly while a submission is in flight; it asks for no validation, and
  outside a submission a click on it decrements the step by one.
\<close>

theorem back_enabled_when_idle:
  "1 < step st \<Longrightarrow>
     (back_disabled st \<longleftrightarrow> isLoading st) \<and>
     step (wizard_back st) = step st - 1 \<and>
     (\<not> isLoading st \<longrightarrow> fire st ClickBack = wizard_back st)"
  by (simp add: back_disabled_def wizard_back_def)

theorem back_enabled_when_idle_witness:
  "1 < step (run initial [Edit filled, ClickNext]) \<and>
   \<not> isLoading (run initial [Edit filled, ClickNext]) \<and>
   \<not> back_disabled (run initial [Edit filled, ClickNext]) \<and>
   step (fire (run initial [Edit filled, ClickNext]) ClickBack) = 1"
proof -
  let ?st = "run initial [Edit filled, ClickNext]"
  have a: "step ?st = 2" and b: "\<not> isLoading ?st"
    by (simp_all add: filled_def wizard_defs)
  from a have c: "1 < step ?st" by simp
  from back_enabled_when_idle [OF c] a b show ?thesis by simp
qed

lemma step_shift_range:
  "1 \<le> step st \<and> step st \<le> 2 \<Longrightarrow> 1 \<le> step (shift st m) \<and> step (shift st m) \<le> 2"
  by (cases m) (simp_all add: wizard_next_def wizard_back_def total_def)

lemma step_shifts_range:
  "1 \<le> step st \<and> step st \<le> 2 \<Longrightarrow> 1 \<le> step (shifts st ms) \<and> step (shifts st ms) \<le> 2"
proof (induction ms arbitrary: st)
  case Nil
  then show ?case by simp
next
  case (Cons m ms)
  have "1 \<le> step (shift st m) \<and> step (shift st m) \<le> 2"
    using Cons.prems by (rule step_shift_range)
  then show ?case using Cons.IH by simp
qed

text \<open>
  C9. After any sequence of calls of next and back from the initial state the step is
  between 1 and the total of 2; next at the total stays there and back at 1 stays at 1.
\<close>

theorem step_in_range:
  "1 \<le> step (shifts initial ms) \<and> step (shifts initial ms) \<le> total \<and>
   (step st = total \<longrightarrow> step (wizard_next st) = total) \<and>
   (step st = 1 \<longrightarrow> step (wizard_back st) = 1)"
proof -
  have "1 \<le> step initial \<and> step initial \<le> 2" by (simp add: initial_def)
  then have "1 \<le> step (shifts initial ms) \<and> step (shifts initial ms) \<le> 2"
    by (rule step_shifts_range)
  then show ?thesis by (simp add: total_def wizard_next_def wizard_back_def)
qed

theorem step_in_range_witness:
  "step (shifts initial [Next, Next, Next]) = total \<and>
   step (wizard_next (shifts initial [Next, Next])) = total \<and>
   step (shifts initial [Next, Back, Back]) = 1 \<and>
   step (wizard_back initial) = 1"
proof -
  have a: "step (shifts initial [Next, Next]) = total" and b: "step initial = 1"
    by (simp_all add: wizard_defs)
  from step_in_range [of "[Next, Next, Next]" "shifts initial [Next, Next]"] a
  have "step (wizard_next (shifts initial [Next, Next])) = total" by blast
  moreover from step_in_range [of "[]" initial] b have "step (wizard_back initial) = 1" by blast
  moreover have "step (shifts initial [Next, Next, Next]) = total"
    "step (shifts initial [Next, Back, Back]) = 1" by (simp_all add: wizard_defs)
  ultimately show ?thesis by blast
qed





section \<open>Properties of the sites directory\<close>

lemma starts_with_iff: "starts_with s q \<longleftrightarrow> (\<exists>r. s = q @ r)"
  by (induction s q rule: starts_with.induct) auto

lemma str_includes_iff: "str_includes s q \<longleftrightarrow> (\<exists>p r. s = p @ q @ r)"
proof (induction s)
  case Nil
  then show ?case by auto
next
  case (Cons c s)
  show ?case
  proof
    assume "str_includes (c # s) q"
    then consider "starts_with (c # s) q" | "str_includes s q" by auto
    then show "\<exists>p r. c # s = p @ q @ r"
    proof cases
      case 1
      then obtain r where "c # s = q @ r" by (auto simp: starts_with_iff)
      then have "c # s = [] @ q @ r" by simp
      then show ?thesis by blast
    next
      case 2
      then obtain p r where "s = p @ q @ r" using Cons.IH by blast
      then have "c # s = (c # p) @ q @ r" by simp
      then show ?thesis by blast
    qed
  next
    assume "\<exists>p r. c # s = p @ q @ r"
    then obtain p r where eq: "c # s = p @ q @ r" by blast
    show "str_includes (c # s) q"
    proof (cases p)
      case Nil
      with eq have "starts_with (c # s) q" by (auto simp: starts_with_iff)
      then show ?thesis by simp
    next
      case (Cons d p')
      with eq have "s = p' @ q @ r" by simp
      then have "str_includes s q" using Cons.IH by blast
      then show ?thesis by simp
    qed
  qed
qed

lemma occurs_ci_at_iff:
  "occurs_ci_at f s q i \<longleftrightarrow>
     i + length q \<le> length s \<and> map f (take (length q) (drop i s)) = map f q"
proof (cases "i + length q \<le> length s")
  case True
  have "(map f (take (length q) (drop i s)) = map f q) \<longleftrightarrow>
        (\<forall>j < length q. f (s ! (i + j)) = f (q ! j))"
    using True by (auto simp: list_eq_iff_nth_eq)
  then show ?thesis using True by (auto simp: occurs_ci_at_def)
next
  case False
  then show ?thesis by (simp add: occurs_ci_at_def)
qed

text \<open>
  Searching the images under a map of the units is containment up to that map.
\<close>

lemma includes_map_iff: "str_includes (map f s) (map f q) \<longleftrightarrow> contains_ci f s q"
proof
  assume "str_includes (map f s) (map f q)"
  then obtain p' r' where "map f s = p' @ map f q @ r'"
    by (auto simp: str_includes_iff)
  then have "\<exists>p t. s = p @ t \<and> p' = map f p \<and> map f q @ r' = map f t"
    by (simp only: map_eq_append_conv)
  then obtain p t where s: "s = p @ t" and t: "map f t = map f q @ r'"
    by auto
  from t have "\<exists>m r. t = m @ r \<and> map f q = map f m \<and> r' = map f r"
    by (simp only: map_eq_append_conv)
  then obtain m r where t': "t = m @ r" and m: "map f m = map f q"
    by auto
  from m have len: "length m = length q" by (rule map_eq_imp_length_eq)
  have "take (length q) (drop (length p) s) = m" using s t' len by simp
  then have "occurs_ci_at f s q (length p)"
    using s t' len m by (simp add: occurs_ci_at_iff)
  moreover have "length p \<le> length s" using s by simp
  ultimately show "contains_ci f s q" by (auto simp: contains_ci_def)
next
  assume "contains_ci f s q"
  then obtain i where i: "i + length q \<le> length s"
    and eq: "map f (take (length q) (drop i s)) = map f q"
    by (auto simp: contains_ci_def occurs_ci_at_iff)
  have "s = take i s @ take (length q) (drop i s) @ drop (length q) (drop i s)"
    by (simp only: append_take_drop_id)
  then have "map f s = map f (take i s) @ map f q @ map f (drop (length q) (drop i s))"
    using eq by (metis map_append)
  then show "str_includes (map f s) (map f q)"
    unfolding str_includes_iff by blast
qed

lemma includes_contains: "str_includes s q \<longleftrightarrow> contains s q"
  using includes_map_iff [of "\<lambda>u. u" s q] by (simp add: contains_def)

lemma contains_ci_empty: "contains_ci f s []"
  by (auto simp: contains_ci_def occurs_ci_at_def)

lemma filteredSites_lowered:
  "q \<noteq> [] \<Longrightarrow> filteredSites lc loaded q = filter (matches_lowered lc q) loaded"
  by (simp add: filteredSites_def matches_lowered_def [abs_def] Let_def includes_contains)

lemma filteredSites_unitwise:
  assumes "unitwise_on lc f loaded q"
  shows "filteredSites lc loaded q = filter (matches_ci f q) loaded"
proof (cases "q = []")
  case True
  then show ?thesis
    by (simp add: filteredSites_def matches_ci_def [abs_def] contains_ci_empty)
next
  case False
  have "filteredSites lc loaded q = filter (matches_lowered lc q) loaded"
    using False by (rule filteredSites_lowered)
  also have "\<dots> = filter (matches_ci f q) loaded"
  proof (rule filter_cong [OF refl])
    fix site assume "site \<in> set loaded"
    with assms have "lc q = map f q" "lc (site_name site) = map f (site_name site)"
      "lc (JobSite.country site) = map f (JobSite.country site)"
      "lc (site_url site) = map f (site_url site)"
      by (auto simp: unitwise_on_def)
    then show "matches_lowered lc q site = matches_ci f q site"
      by (simp add: matches_lowered_def matches_ci_def includes_contains [symmetric]
          includes_map_iff)
  qed
  finally show ?thesis .
qed

text \<open>
  C4, as the claim states it, fails. The name of the site begins with the query, unit
  for unit, and the filter drops the site: lower-cased on its own, the query ends in
  a final sigma that the lower-cased name does not have.
\<close>

theorem final_sigma_counterexample:
  "contains (site_name asteri) alpha_sigma \<and>
   filteredSites lowered_here [asteri] alpha_sigma = []"
proof -
  have "occurs_ci_at (\<lambda>u. u) (site_name asteri) alpha_sigma 0"
    by (simp add: occurs_ci_at_def asteri_def alpha_sigma_def lessThan_nat_numeral lessThan_Suc)
  then have "contains (site_name asteri) alpha_sigma"
    unfolding contains_def contains_ci_def by auto
  moreover have "filteredSites lowered_here [asteri] alpha_sigma = []"
    by (simp add: filteredSites_def lowered_here_def asteri_def alpha_sigma_def)
  ultimately show ?thesis by simp
qed

text \<open>
  C4, amended. For every loaded list of sites and every query, whatever the
  lower-casing of the runtime, the filter returns the loaded list unchanged for the
  empty query, and otherwise exactly the sites, in their order, of which the
  lower-cased site_name, country or site_url contains the lower-cased query. Where
  the lower-casing acts on the query and on the loaded fields unit by unit, as it does
  on ASCII text, these are exactly the sites of which a field contains the query up
  to that mapping of the units, that is, ignoring case.
\<close>

theorem filteredSites_spec:
  "filteredSites lc loaded [] = loaded \<and>
   (q \<noteq> [] \<longrightarrow> filteredSites lc loaded q = filter (matches_lowered lc q) loaded) \<and>
   (unitwise_on lc f loaded q \<longrightarrow> filteredSites lc loaded q = filter (matches_ci f q) loaded)"
proof (intro conjI impI)
  show "filteredSites lc loaded [] = loaded" by (simp add: filteredSites_def)
next
  assume "q \<noteq> []"
  then show "filteredSites lc loaded q = filter (matches_lowered lc q) loaded"
    by (rule filteredSites_lowered)
next
  assume "unitwise_on lc f loaded q"
  then show "filteredSites lc loaded q = filter (matches_ci f q) loaded"
    by (rule filteredSites_unitwise)
qed

theorem filteredSites_spec_witness:
  "map of_char ''GERM'' \<noteq> ([] :: utf16) \<and>
   unitwise_on (map ascii_fold) ascii_fold [de, pl] (map of_char ''GERM'') \<and>
   matches_ci ascii_fold (map of_char ''GERM'') de \<and>
   \<not> matches_ci ascii_fold (map of_char ''GERM'') pl \<and>
   filteredSites (map ascii_fold) [de, pl] (map of_char ''GERM'') = [de] \<and>
   filter (matches_lowered (map ascii_fold) (map of_char ''GERM'')) [de, pl] = [de]"
proof -
  let ?q = "map of_char ''GERM'' :: utf16"
  have n: "?q \<noteq> []" by simp
  have u: "unitwise_on (map ascii_fold) ascii_fold [de, pl] ?q"
    by (simp add: unitwise_on_def)
  have "occurs_ci_at ascii_fold (JobSite.country de) ?q 0"
    by (simp add: occurs_ci_at_def de_def ascii_fold_def lessThan_nat_numeral lessThan_Suc)
  then have "contains_ci ascii_fold (JobSite.country de) ?q"
    unfolding contains_ci_def by auto
  then have a: "matches_ci ascii_fold ?q de" by (simp add: matches_ci_def)
  have b: "\<not> matches_ci ascii_fold ?q pl"
    by (simp add: matches_ci_def includes_map_iff [symmetric] pl_def ascii_fold_def)
  from filteredSites_spec [of "map ascii_fold" "[de, pl]" ?q ascii_fold] n u
  have c: "filteredSites (map ascii_fold) [de, pl] ?q = filter (matches_ci ascii_fold ?q) [de, pl]"
    and d: "filteredSites (map ascii_fold) [de, pl] ?q =
      filter (matches_lowered (map ascii_fold) ?q) [de, pl]"
    by blast+
  from c a b have e: "filteredSites (map ascii_fold) [de, pl] ?q = [de]" by simp
  with d have "filter (matches_lowered (map ascii_fold) ?q) [de, pl] = [de]" by simp
  with n u a b e show ?thesis by blast
qed

text \<open>
  C2, as the claim states it, fails: after the handler runs with the empty string the
  parameter is absent although the selection is not \<open>all\<close>.
\<close>

theorem empty_selection_counterexample:
  "searchParams (handleCountryChange '''' browsing) ''country'' = None \<and>
   selectedCountry (handleCountryChange '''' browsing) \<noteq> ''all''"
  by (simp add: handleCountryChange_def browsing_def)

text \<open>
  C2, amended. After the selection-change handler runs, the selection is the chosen
  string; the URL parameter \<open>country\<close> is absent exactly when that string is \<open>all\<close>
  or empty, and equals it otherwise. After a click on a popular country the parameter
  equals the clicked country.
\<close>

theorem country_param_follows_selection:
  "selectedCountry (handleCountryChange c st) = c \<and>
   (searchParams (handleCountryChange c st) ''country'' = None \<longleftrightarrow> c = ''all'' \<or> c = '''') \<and>
   (c \<noteq> ''all'' \<and> c \<noteq> '''' \<longrightarrow>
      searchParams (handleCountryChange c st) ''country'' = Some c) \<and>
   selectedCountry (popularCountry_click c st) = c \<and>
   searchParams (popularCountry_click c st) ''country'' = Some c"
  by (simp add: handleCountryChange_def popularCountry_click_def)

theorem country_param_follows_selection_witness:
  "searchParams (handleCountryChange ''Poland'' browsing) ''country'' = Some ''Poland'' \<and>
   searchParams (handleCountryChange ''all'' browsing) ''country'' = None"
proof -
  have "''Poland'' \<noteq> ''all'' \<and> ''Poland'' \<noteq> ''''" by simp
  with country_param_follows_selection [of "''Poland''" browsing]
       country_param_follows_selection [of "''all''" browsing]
  show ?thesis by blast
qed


section \<open>Properties of the dashboard\<close>

lemmas dash_defs = handleViewAllCountries_def handleViewCountry_def displaySites_def
  viewAll_jobSites_def js_or_def read_prop_def

text \<open>
  C3, as the claim states it, fails: for a user with a country the second toggle
  leaves the dashboard for the sites page of that country.
\<close>

theorem toggle_twice_leaves_dashboard_counterexample:
  "location (handleViewAllCountries (Resolved dashboard_ok)
      (handleViewAllCountries (Resolved all_ok) mounted)) =
     Location ''/sites'' [(''country'', ''Germany'')] \<and>
   location mounted = Location ''/dashboard'' []"
  by (simp add: dash_defs mounted_def all_ok_def dashboard_ok_def)

text \<open>
  C3, amended. From a dashboard that shows the curated set, when the request for all
  sites resolves to a response and the dashboard request of the way back fails, is
  not ok or returns the curated set again, two toggles in succession restore the flag
  and the displayed sites. The page is the same when the user has no country; with a
  country the second toggle navigates to the sites page of that country.
\<close>

theorem toggle_twice:
  assumes "\<not> showAllCountries st" and "prop_of res ''ok'' = Some v"
    and "\<forall>d. p = Resolved d \<and> truthy (read_prop d ''ok'') \<longrightarrow>
           js_or (read_prop d ''job_sites'') (JArr []) = dashboard.sites st"
  shows "showAllCountries (handleViewAllCountries p (handleViewAllCountries (Resolved res) st)) =
           showAllCountries st \<and>
         displaySites (handleViewAllCountries p (handleViewAllCountries (Resolved res) st)) =
           displaySites st \<and>
         (dashboard.country st = [] \<longrightarrow>
            location (handleViewAllCountries p (handleViewAllCountries (Resolved res) st)) =
              location st) \<and>
         (dashboard.country st \<noteq> [] \<longrightarrow>
            location (handleViewAllCountries p (handleViewAllCountries (Resolved res) st)) =
              Location ''/sites'' [(''country'', dashboard.country st)])"
proof -
  let ?st1 = "handleViewAllCountries (Resolved res) st"
  have s1: "showAllCountries ?st1" "dashboard.sites ?st1 = dashboard.sites st"
    "dashboard.country ?st1 = dashboard.country st" "location ?st1 = location st"
    using assms(1,2) by (simp_all add: handleViewAllCountries_def)
  show ?thesis
  proof (cases "dashboard.country st = []")
    case False
    then show ?thesis using s1 assms(1)
      by (simp add: handleViewAllCountries_def handleViewCountry_def displaySites_def)
  next
    case True
    show ?thesis
    proof (cases p)
      case Rejected
      then show ?thesis using s1 assms(1) True
        by (simp add: handleViewAllCountries_def displaySites_def)
    next
      case (Resolved d)
      show ?thesis
      proof (cases "prop_of d ''ok''")
        case None
        then show ?thesis using s1 assms(1) True Resolved
          by (simp add: handleViewAllCountries_def displaySites_def)
      next
        case (Some w)
        then have w: "read_prop d ''ok'' = w" by (simp add: read_prop_def)
        show ?thesis
        proof (cases "truthy w")
          case False
          then show ?thesis using s1 assms(1) True Resolved Some
            by (simp add: handleViewAllCountries_def displaySites_def)
        next
          case tr: True
          with assms(3) Resolved w
          have "js_or (read_prop d ''job_sites'') (JArr []) = dashboard.sites st" by simp
          then show ?thesis using s1 assms(1) True Resolved Some tr
            by (simp add: handleViewAllCountries_def displaySites_def)
        qed
      qed
    qed
  qed
qed

theorem toggle_twice_witness:
  "\<not> showAllCountries unbound \<and> prop_of all_ok ''ok'' = Some (JBool True) \<and>
   displaySites (handleViewAllCountries (Resolved all_ok) unbound) = JArr [site1, site1] \<and>
   displaySites (handleViewAllCountries (Resolved dashboard_ok)
      (handleViewAllCountries (Resolved all_ok) unbound)) = JArr [site1] \<and>
   location (handleViewAllCountries (Resolved dashboard_ok)
      (handleViewAllCountries (Resolved all_ok) unbound)) = Location ''/dashboard'' [] \<and>
   location (handleViewAllCountries (Resolved dashboard_ok)
      (handleViewAllCountries (Resolved all_ok) mounted)) = Location ''/sites'' [(''country'', ''Germany'')]"
proof -
  have a: "\<not> showAllCountries unbound" "\<not> showAllCountries mounted"
    by (simp_all add: unbound_def mounted_def)
  have b: "prop_of all_ok ''ok'' = Some (JBool True)" by (simp add: all_ok_def)
  have c: "\<forall>d. Resolved dashboard_ok = Resolved d \<and> truthy (read_prop d ''ok'') \<longrightarrow>
           js_or (read_prop d ''job_sites'') (JArr []) = dashboard.sites unbound"
    by (simp add: dashboard_ok_def unbound_def js_or_def read_prop_def)
  have c': "\<forall>d. Resolved dashboard_ok = Resolved d \<and> truthy (read_prop d ''ok'') \<longrightarrow>
           js_or (read_prop d ''job_sites'') (JArr []) = dashboard.sites mounted"
    by (simp add: dashboard_ok_def mounted_def js_or_def read_prop_def)
  have d: "displaySites unbound = JArr [site1]" "location unbound = Location ''/dashboard'' []"
    "dashboard.country unbound = []" "dashboard.country mounted = ''Germany''"
    by (simp_all add: unbound_def mounted_def displaySites_def)
  have e: "displaySites (handleViewAllCountries (Resolved all_ok) unbound) = JArr [site1, site1]"
    by (simp add: dash_defs unbound_def all_ok_def)
  from toggle_twice [OF a(1) b c] toggle_twice [OF a(2) b c'] a b d e show ?thesis by simp
qed

text \<open>
  The parser of the sites view does what the specification says of it, on every
  response value.
\<close>

lemma jobSites_of_tolerant:
  "jobSites_of res = (if res = JUndefined \<or> res = JNull then None else Some (tolerant_parse res))"
  by (cases res; cases "read_prop res ''results''"; cases "read_prop res ''data''")
     (auto simp: jobSites_of_def tolerant_parse_def read_prop_def split: option.splits)

lemma loadSitesForCountry_tolerant:
  "sites_page.sites (loadSitesForCountry (Resolved res) st) = tolerant_parse res"
  by (cases res) (simp_all add: loadSitesForCountry_def jobSites_of_tolerant tolerant_parse_def read_prop_def)

text \<open>
  C6 at two responses. On a bare array the sites view yields the array, while the
  view-all handler of the dashboard, which reads the response only when \<open>res.ok\<close>
  is truthy, keeps its empty list and displays nothing. On an object whose
  \<open>results\<close> is a string and whose \<open>data\<close> is an array the sites view yields
  \<open>data\<close>, while the dashboard stores the string.
\<close>

theorem dashboard_parser_diverges:
  "tolerant_parse (JArr [site1]) = [site1] \<and>
   sites_page.sites (loadSitesForCountry (Resolved (JArr [site1])) browsing) = [site1] \<and>
   allSites (handleViewAllCountries (Resolved (JArr [site1])) mounted) = JArr [] \<and>
   displaySites (handleViewAllCountries (Resolved (JArr [site1])) mounted) = JArr [] \<and>
   tolerant_parse mislabelled = [site1] \<and>
   sites_page.sites (loadSitesForCountry (Resolved mislabelled) browsing) = [site1] \<and>
   allSites (handleViewAllCountries (Resolved mislabelled) mounted) = JStr ''none''"
  by (simp add: dash_defs mounted_def mislabelled_def tolerant_parse_def loadSitesForCountry_def
      jobSites_of_def)


section \<open>Properties of the contact form\<close>

lemmas contact_defs = handleSubmit_def handleSubmit_begin_def handleSubmit_settle_def Let_def

text \<open>
  C5. When the endpoint answers a submission with a 2xx response, the handler resets
  the four fields name, email, subject and message to empty strings, sets the success
  banner and schedules its dismissal on a timer of 5000 ms, whose callback clears it.
\<close>

theorem contact_success_resets:
  assumes "ok r"
  shows "formData (handleSubmit (Resolved r) st) = emptyForm \<and>
     (\<forall>k \<in> set [''name'', ''email'', ''subject'', ''message''].
         formData (handleSubmit (Resolved r) st) k = Some '''') \<and>
     success (handleSubmit (Resolved r) st) \<and>
     timers (handleSubmit (Resolved r) st) = timers st @ [(5000, SetSuccessFalse)] \<and>
     \<not> success (call SetSuccessFalse (handleSubmit (Resolved r) st)) \<and>
     contact.error (handleSubmit (Resolved r) st) = JNull \<and>
     \<not> contact.loading (handleSubmit (Resolved r) st) \<and>
     formData (handleSubmit_settle (Resolved r) st) = emptyForm \<and>
     success (handleSubmit_settle (Resolved r) st) \<and>
     timers (handleSubmit_settle (Resolved r) st) = timers st @ [(5000, SetSuccessFalse)]"
  using assms by (simp add: contact_defs emptyForm_def)

theorem contact_success_resets_witness:
  "ok created \<and>
   formData (handleSubmit (Resolved created) typed) ''message'' = Some '''' \<and>
   success (handleSubmit (Resolved created) typed) \<and>
   timers (handleSubmit (Resolved created) typed) = [(5000, SetSuccessFalse)]"
proof -
  have a: "ok created" by (simp add: ok_def created_def)
  have b: "timers typed = []" by (simp add: typed_def)
  from contact_success_resets [OF a, of typed]
  have c: "\<forall>k \<in> set [''name'', ''email'', ''subject'', ''message''].
         formData (handleSubmit (Resolved created) typed) k = Some []"
    and d: "success (handleSubmit (Resolved created) typed)"
    and e: "timers (handleSubmit (Resolved created) typed) = timers typed @ [(5000, SetSuccessFalse)]"
    by blast+
  from c have "formData (handleSubmit (Resolved created) typed) ''message'' = Some []" by simp
  with a b d e show ?thesis by simp
qed

text \<open>
  C10. When a submission fails, by a rejected request or by a response outside 2xx,
  the four form fields are as the user typed them: from the settled request on the
  handler sets the error message (and ends the loading state), nothing else, and the
  steps before the request write no field either.
\<close>

theorem contact_failure_keeps_input:
  assumes "p = Rejected \<or> (\<exists>r. p = Resolved r \<and> \<not> ok r)"
  shows "formData (handleSubmit p st) = formData st \<and>
     timers (handleSubmit p st) = timers st \<and>
     truthy (contact.error (handleSubmit p st)) \<and>
     handleSubmit_settle p st =
       st\<lparr>contact.error := contact.error (handleSubmit_settle p st), contact.loading := False\<rparr>"
proof -
  have settle: "truthy (contact.error (handleSubmit_settle p s)) \<and>
      handleSubmit_settle p s =
        s\<lparr>contact.error := contact.error (handleSubmit_settle p s), contact.loading := False\<rparr>"
    for s
    using assms
    by (auto simp: handleSubmit_settle_def Let_def js_or_def network_error_def send_failure_def
        split: option.splits)
  from settle [of "handleSubmit_begin st"]
  have m: "truthy (contact.error (handleSubmit p st))"
    and eq: "handleSubmit p st =
      (handleSubmit_begin st)\<lparr>contact.error := contact.error (handleSubmit p st),
         contact.loading := False\<rparr>"
    by (simp_all add: handleSubmit_def)
  have "formData (handleSubmit p st) = formData (handleSubmit_begin st)"
    "timers (handleSubmit p st) = timers (handleSubmit_begin st)"
    by (subst eq, simp)+
  then have "formData (handleSubmit p st) = formData st" "timers (handleSubmit p st) = timers st"
    by (simp_all add: handleSubmit_begin_def)
  then show ?thesis using m settle [of st] by simp
qed

theorem contact_failure_keeps_input_witness:
  "\<not> ok bad_request \<and>
   formData (handleSubmit (Resolved bad_request) typed) = formData typed \<and>
   formData (handleSubmit Rejected typed) ''name'' = Some ''Sara'' \<and>
   contact.error (handleSubmit (Resolved bad_request) typed) = JStr ''Invalid email''"
proof -
  have a: "\<not> ok bad_request" by (simp add: ok_def bad_request_def)
  then have b: "Resolved bad_request = Rejected \<or>
      (\<exists>r. Resolved bad_request = Resolved r \<and> \<not> ok r)"
    by blast
  have c: "(Rejected :: response promise) = Rejected \<or> (\<exists>r. Rejected = Resolved r \<and> \<not> ok r)"
    by blast
  have d: "contact.error (handleSubmit (Resolved bad_request) typed) = JStr ''Invalid email''"
    by (simp add: contact_defs ok_def bad_request_def js_or_def)
  have e: "formData typed ''name'' = Some ''Sara''" by (simp add: typed_def)
  from contact_failure_keeps_input [OF b, of typed] contact_failure_keeps_input [OF c, of typed]
    a d e show ?thesis by simp
qed

end
